theory Spec2Isabelle
  imports Main
begin

section \<open>JavaScript values\<close>

text \<open>
  The library moves JSON between the caller and the server, and its control flow tests
  these values for truthiness (\<^verbatim>\<open>a || b\<close>, \<^verbatim>\<open>a && b\<close>, \<^verbatim>\<open>if (x)\<close>). A JSON value is
  modelled by \<open>json\<close>; \<open>None :: jsval\<close> is JavaScript's \<^verbatim>\<open>undefined\<close>. An object is a
  finite map from member name to value (member order plays no role in the code modelled
  here). JSON numbers are kept as integers: the code only tests them against zero.
\<close>

datatype json =
    JNull
  | JBool bool
  | JNum int
  | JStr string
  | JArr "json list"
  | JObj "string \<Rightarrow> json option"

type_synonym jsval = "json option"

type_synonym obj = "string \<Rightarrow> json option"

fun truthy :: "json \<Rightarrow> bool" where
  "truthy JNull = False"
| "truthy (JBool b) = b"
| "truthy (JNum n) = (n \<noteq> 0)"
| "truthy (JStr s) = (s \<noteq> [])"
| "truthy (JArr xs) = True"
| "truthy (JObj m) = True"

definition truthy_v :: "jsval \<Rightarrow> bool" where
  "truthy_v v = (case v of None \<Rightarrow> False | Some j \<Rightarrow> truthy j)"

text \<open>\<^verbatim>\<open>a || b\<close>.\<close>

definition js_or :: "jsval \<Rightarrow> jsval \<Rightarrow> jsval" where
  "js_or a b = (if truthy_v a then a else b)"

datatype js_error = TypeError

text \<open>
  The data member of a given name that a value owns. It is the whole of the read for
  the names the library itself reads (\<^verbatim>\<open>fields\<close>, \<^verbatim>\<open>id\<close>): no built-in prototype
  has a member of these names, so on a string, number, boolean or array, and on an
  object without such a member, the read gives \<^verbatim>\<open>undefined\<close>.
\<close>

fun own_prop :: "json \<Rightarrow> string \<Rightarrow> jsval" where
  "own_prop (JObj m) k = m k"
| "own_prop j k = None"

text \<open>\<^verbatim>\<open>v[k]\<close>: reading a member of \<^verbatim>\<open>undefined\<close> or \<^verbatim>\<open>null\<close> throws.\<close>

definition member :: "jsval \<Rightarrow> string \<Rightarrow> js_error + jsval" where
  "member v k =
     (case v of
        None \<Rightarrow> Inl TypeError
      | Some JNull \<Rightarrow> Inl TypeError
      | Some j \<Rightarrow> Inr (own_prop j k))"

text \<open>\<^verbatim>\<open>v && v[k]\<close>: the guard keeps the read from throwing.\<close>

definition js_and_member :: "jsval \<Rightarrow> string \<Rightarrow> jsval" where
  "js_and_member v k =
     (if truthy_v v then (case v of None \<Rightarrow> None | Some j \<Rightarrow> own_prop j k) else v)"

text \<open>
  lodash \<^verbatim>\<open>assign(target, source)\<close> with both arguments objects: every member of the
  source is written over the target.
\<close>

definition assign :: "obj \<Rightarrow> obj \<Rightarrow> obj" where
  "assign target source = target ++ source"



section \<open>The dispatcher seen from its callers\<close>

text \<open>
  \<^verbatim>\<open>table.js\<close> and \<^verbatim>\<open>record.js\<close> reach the network only through
  \<^verbatim>\<open>base.runAction(method, path, queryParams, bodyData, callback)\<close>, which later calls
  back with \<^verbatim>\<open>(err, response, results)\<close>. The path is kept symbolic: \<open>TablePath t\<close> is
  \<^verbatim>\<open>'/' + t._urlEncodedNameOrId() + '/'\<close> and \<open>RecordPath t i\<close> is
  \<^verbatim>\<open>'/' + t._urlEncodedNameOrId() + '/' + i\<close>.
\<close>

record Table =
  tableId :: jsval
  tableName :: jsval

datatype http_method = GET | POST | PATCH | PUT | DELETE

datatype url_path = TablePath Table | RecordPath Table jsval

record action =
  method' :: http_method
  path :: url_path
  queryParams :: obj
  bodyData :: jsval

text \<open>
  The error a dispatch reports; the classes are those of the specification's error
  taxonomy. The callers below test it only with \<^verbatim>\<open>if (err)\<close> and hand it on; an error
  object is truthy.
\<close>

datatype airtable_error =
    RateLimited jsval
  | RemoteError nat jsval
  | TransportError

datatype 'b outcome = Failed airtable_error | Succeeded 'b

record Record =
  table :: Table
  id' :: jsval
  rawJson :: jsval
  fields' :: jsval

text \<open>
  What an operation does, in the order it does it: a request handed to the dispatcher,
  the dispatcher's answer arriving, lodash \<^verbatim>\<open>forEach(page, callback)\<close> being entered
  with a page, the caller's callback being invoked on one record of it, the completion
  callback being invoked (\<open>CallDone None None\<close> is \<^verbatim>\<open>done()\<close>, \<open>CallDone (Some e) None\<close>
  is \<^verbatim>\<open>done(e)\<close>, \<open>CallDone None (Some r)\<close> is \<^verbatim>\<open>done(null, r)\<close>), and a console
  warning.
\<close>

datatype 'b event =
    Dispatch action
  | Received "'b outcome"
  | ForEach "Record list"
  | Each Record nat
  | CallDone "airtable_error option" "Record option"
  | Warn string

text \<open>
  An operation is \<open>Awaiting\<close> while the dispatcher has not answered its last request,
  \<open>Finished\<close> once it has invoked its completion callback, and \<open>Threw e\<close> when an
  exception left the dispatcher's callback.
\<close>

datatype status = Awaiting | Finished | Threw js_error

text \<open>
  The dispatcher is the environment: the list of outcomes it will deliver, in order, to
  the requests it is handed. With no outcome left the request stays unanswered. A
  callback runs on the outcome, the state of the object it closes over and the outcomes
  still to come (it may dispatch again), and hands back what it did.
\<close>

type_synonym ('b, 's) run = "status \<times> 'b event list \<times> 's \<times> 'b outcome list"

fun runAction ::
  "action \<Rightarrow> ('b outcome \<Rightarrow> 's \<Rightarrow> 'b outcome list \<Rightarrow> ('b, 's) run) \<Rightarrow> 's \<Rightarrow> 'b outcome list
     \<Rightarrow> ('b, 's) run" where
  "runAction a callback s [] = (Awaiting, [Dispatch a], s, [])"
| "runAction a callback s (reply # rest) =
     (case callback reply s rest of
        (st, es, s', rest') \<Rightarrow> (st, Dispatch a # Received reply # es, s', rest'))"

definition status_of :: "status \<times> 'e list \<times> 's \<times> 'p \<Rightarrow> status" where
  "status_of res = fst res"

definition events_of :: "status \<times> 'e list \<times> 's \<times> 'p \<Rightarrow> 'e list" where
  "events_of res = fst (snd res)"

definition state_of :: "status \<times> 'e list \<times> 's \<times> 'p \<Rightarrow> 's" where
  "state_of res = fst (snd (snd res))"

definition pending_of :: "status \<times> 'e list \<times> 's \<times> 'p \<Rightarrow> 'p" where
  "pending_of res = snd (snd (snd res))"

fun requests :: "'b event list \<Rightarrow> action list" where
  "requests [] = []"
| "requests (Dispatch a # es) = a # requests es"
| "requests (e # es) = requests es"

fun completions :: "'b event list \<Rightarrow> 'b event list" where
  "completions [] = []"
| "completions (CallDone e r # es) = CallDone e r # completions es"
| "completions (e # es) = completions es"


section \<open>Record\<close>

text \<open>\<^verbatim>\<open>setRawJson\<close> (record.js, lines 147-150).\<close>

definition setRawJson :: "Record \<Rightarrow> jsval \<Rightarrow> Record" where
  "setRawJson r rawJson' =
     (let r1 = r\<lparr>rawJson := rawJson'\<rparr>
      in r1\<lparr>fields' := js_or (js_and_member (rawJson r1) ''fields'') (Some (JObj Map.empty))\<rparr>)"

text \<open>
  \<^verbatim>\<open>init\<close> (lines 17-21): \<^verbatim>\<open>this.id = recordId || recordJson.id\<close> throws when the id is
  falsy and there is no record JSON. The wrapping of the methods by \<^verbatim>\<open>callbackToPromise\<close>
  only adapts how the completion is delivered.
\<close>

definition init :: "Table \<Rightarrow> jsval \<Rightarrow> jsval \<Rightarrow> js_error + Record" where
  "init tbl recordId recordJson =
     (case (if truthy_v recordId then Inr recordId else member recordJson ''id'') of
        Inl e \<Rightarrow> Inl e
      | Inr i \<Rightarrow>
          Inr (setRawJson \<lparr>table = tbl, id' = i, rawJson = None, fields' = None\<rparr> recordJson))"

definition getId :: "Record \<Rightarrow> jsval" where
  "getId r = id' r"



text \<open>
  \<^verbatim>\<open>set\<close> (lines 90-92), in strict mode: storing a member on \<^verbatim>\<open>undefined\<close>, \<^verbatim>\<open>null\<close> or a
  primitive throws. The object in \<^verbatim>\<open>fields\<close> is the very object found in the raw JSON
  whenever that one was truthy, so the raw JSON sees the store too. A store to
  \<^verbatim>\<open>__proto__\<close> on an object that owns no member of that name runs the setter of
  \<^verbatim>\<open>Object.prototype\<close>, which leaves the members the object owns as they are. A member
  stored on an array object is not part of the array's JSON value, which is kept (a
  column name that is an array index is not modelled).
\<close>

definition set' :: "Record \<Rightarrow> string \<Rightarrow> jsval \<Rightarrow> js_error + Record" where
  "set' r columnName columnValue =
     (case fields' r of
        Some (JObj m) \<Rightarrow>
          (if columnName = ''__proto__'' \<and> m ''__proto__'' = None
           then Inr r
           else
             (let f = Some (JObj (m(columnName := columnValue)))
              in Inr (r\<lparr>fields' := f,
                        rawJson :=
                          (case rawJson r of
                             Some (JObj raw) \<Rightarrow>
                               (if truthy_v (raw ''fields'')
                                then Some (JObj (raw(''fields'' := f)))
                                else rawJson r)
                           | other \<Rightarrow> other)\<rparr>)))
      | Some (JArr xs) \<Rightarrow> Inr r
      | _ \<Rightarrow> Inl TypeError)"

text \<open>
  The request body of a write: \<^verbatim>\<open>assign({fields: cellValuesByName}, opts)\<close>, where a call
  without options (\<^verbatim>\<open>!done\<close>) takes \<^verbatim>\<open>opts = {}\<close>.
\<close>

definition writeBody :: "jsval \<Rightarrow> obj option \<Rightarrow> jsval" where
  "writeBody cellValuesByName opts =
     Some (JObj (assign (Map.empty(''fields'' := cellValuesByName))
                        (case opts of None \<Rightarrow> Map.empty | Some ob \<Rightarrow> ob)))"

text \<open>\<^verbatim>\<open>patchUpdate\<close> (lines 96-112).\<close>

definition patchUpdate ::
  "Record \<Rightarrow> jsval \<Rightarrow> obj option \<Rightarrow> jsval outcome list \<Rightarrow> (jsval, Record) run" where
  "patchUpdate r cellValuesByName opts =
     runAction
       \<lparr>method' = PATCH, path = RecordPath (table r) (id' r), queryParams = Map.empty,
        bodyData = writeBody cellValuesByName opts\<rparr>
       (\<lambda>reply that rest.
          case reply of
            Failed err \<Rightarrow> (Finished, [CallDone (Some err) None], that, rest)
          | Succeeded results \<Rightarrow>
              (let that' = setRawJson that results
               in (Finished, [CallDone None (Some that')], that', rest)))
       r"

text \<open>\<^verbatim>\<open>putUpdate\<close> (lines 113-128).\<close>

definition putUpdate ::
  "Record \<Rightarrow> jsval \<Rightarrow> obj option \<Rightarrow> jsval outcome list \<Rightarrow> (jsval, Record) run" where
  "putUpdate r cellValuesByName opts =
     runAction
       \<lparr>method' = PUT, path = RecordPath (table r) (id' r), queryParams = Map.empty,
        bodyData = writeBody cellValuesByName opts\<rparr>
       (\<lambda>reply that rest.
          case reply of
            Failed err \<Rightarrow> (Finished, [CallDone (Some err) None], that, rest)
          | Succeeded results \<Rightarrow>
              (let that' = setRawJson that results
               in (Finished, [CallDone None (Some that')], that', rest)))
       r"

text \<open>\<^verbatim>\<open>save\<close> (lines 93-95).\<close>

definition save ::
  "Record \<Rightarrow> jsval outcome list \<Rightarrow> (jsval, Record) run" where
  "save r = putUpdate r (fields' r) None"

text \<open>\<^verbatim>\<open>destroy\<close> (lines 129-136).\<close>

definition destroy ::
  "Record \<Rightarrow> jsval outcome list \<Rightarrow> (jsval, Record) run" where
  "destroy r =
     runAction
       \<lparr>method' = DELETE, path = RecordPath (table r) (id' r), queryParams = Map.empty,
        bodyData = Some JNull\<rparr>
       (\<lambda>reply that rest.
          case reply of
            Failed err \<Rightarrow> (Finished, [CallDone (Some err) None], that, rest)
          | Succeeded results \<Rightarrow> (Finished, [CallDone None (Some that)], that, rest))
       r"

text \<open>\<^verbatim>\<open>fetch\<close> (lines 138-146).\<close>

definition fetch ::
  "Record \<Rightarrow> jsval outcome list \<Rightarrow> (jsval, Record) run" where
  "fetch r =
     runAction
       \<lparr>method' = GET, path = RecordPath (table r) (id' r), queryParams = Map.empty,
        bodyData = Some JNull\<rparr>
       (\<lambda>reply that rest.
          case reply of
            Failed err \<Rightarrow> (Finished, [CallDone (Some err) None], that, rest)
          | Succeeded results \<Rightarrow>
              (let that' = setRawJson that results
               in (Finished, [CallDone None (Some that')], that', rest)))
       r"


section \<open>Table\<close>

text \<open>\<^verbatim>\<open>_createRecord\<close> (table.js, lines 147-160).\<close>

definition createRecord ::
  "Table \<Rightarrow> jsval \<Rightarrow> obj option \<Rightarrow> jsval outcome list \<Rightarrow> (jsval, unit) run" where
  "createRecord that recordData optionalParameters =
     runAction
       \<lparr>method' = POST, path = TablePath that, queryParams = Map.empty,
        bodyData = writeBody recordData optionalParameters\<rparr>
       (\<lambda>reply u rest.
          case reply of
            Failed err \<Rightarrow> (Finished, [CallDone (Some err) None], u, rest)
          | Succeeded body \<Rightarrow>
              (case member body ''id'' of
                 Inl e \<Rightarrow> (Threw e, [], u, rest)
               | Inr bodyId \<Rightarrow>
                   (case init that bodyId body of
                      Inl e \<Rightarrow> (Threw e, [], u, rest)
                    | Inr record \<Rightarrow> (Finished, [CallDone None (Some record)], u, rest))))
       ()"

text \<open>
  The body of a listing response, in its wire shape: \<^verbatim>\<open>{records?: array, offset?: any}\<close>.
  lodash \<^verbatim>\<open>map\<close> over a missing collection gives the empty array.
\<close>

record list_body =
  records :: "json list option"
  offset :: jsval

text \<open>
  \<^verbatim>\<open>map(results.records, function(recordJson) { return new Record(that, null, recordJson); })\<close>:
  the first constructor that throws ends the mapping.
\<close>

fun newRecords :: "Table \<Rightarrow> json list \<Rightarrow> js_error + Record list" where
  "newRecords that [] = Inr []"
| "newRecords that (recordJson # others) =
     (case init that (Some JNull) (Some recordJson) of
        Inl e \<Rightarrow> Inl e
      | Inr r \<Rightarrow> (case newRecords that others of Inl e \<Rightarrow> Inl e | Inr rs \<Rightarrow> Inr (r # rs)))"

text \<open>\<^verbatim>\<open>assign({limit: limit, offset: offset}, opts)\<close>, with \<^verbatim>\<open>opts = {}\<close> when \<^verbatim>\<open>!done\<close>.\<close>

definition listRecordsParameters :: "jsval \<Rightarrow> jsval \<Rightarrow> obj option \<Rightarrow> obj" where
  "listRecordsParameters limit offs opts =
     assign (Map.empty(''limit'' := limit, ''offset'' := offs))
            (case opts of None \<Rightarrow> Map.empty | Some ob \<Rightarrow> ob)"

text \<open>
  \<^verbatim>\<open>_listRecords\<close> (lines 183-205). \<open>done (Inl err)\<close> is \<^verbatim>\<open>done(err)\<close> and
  \<open>done (Inr (records, offs))\<close> is \<^verbatim>\<open>done(null, records, results.offset)\<close>; reading
  \<^verbatim>\<open>results.records\<close> throws when the dispatcher hands over no body.
\<close>

definition listRecords ::
  "Table \<Rightarrow> jsval \<Rightarrow> jsval \<Rightarrow> obj option
     \<Rightarrow> (airtable_error + Record list \<times> jsval \<Rightarrow> 's \<Rightarrow> list_body option outcome list
           \<Rightarrow> (list_body option, 's) run)
     \<Rightarrow> 's \<Rightarrow> list_body option outcome list \<Rightarrow> (list_body option, 's) run" where
  "listRecords that limit offs opts done =
     runAction
       \<lparr>method' = GET, path = TablePath that,
        queryParams = listRecordsParameters limit offs opts, bodyData = Some JNull\<rparr>
       (\<lambda>reply s rest.
          case reply of
            Failed err \<Rightarrow> done (Inl err) s rest
          | Succeeded None \<Rightarrow> (Threw TypeError, [], s, rest)
          | Succeeded (Some results) \<Rightarrow>
              (case newRecords that (case records results of None \<Rightarrow> [] | Some js \<Rightarrow> js) of
                 Inl e \<Rightarrow> (Threw e, [], s, rest)
               | Inr recs \<Rightarrow> done (Inr (recs, offset results)) s rest))"

text \<open>
  lodash \<^verbatim>\<open>forEach(page, callback)\<close> on an array: the callback is invoked on each element
  with its index, in order, and the walk stops early when the callback returns exactly
  \<^verbatim>\<open>false\<close>. The caller's callback is a function of the caller's own state; the boolean
  it returns is whether the walk goes on.
\<close>

fun forEachFrom ::
  "nat \<Rightarrow> Record list \<Rightarrow> ('u \<Rightarrow> Record \<Rightarrow> nat \<Rightarrow> bool \<times> 'u) \<Rightarrow> 'u
     \<Rightarrow> list_body option event list \<times> 'u" where
  "forEachFrom i [] callback u = ([], u)"
| "forEachFrom i (r # rs) callback u =
     (case callback u r i of
        (goOn, u') \<Rightarrow>
          (if goOn
           then (case forEachFrom (Suc i) rs callback u' of (es, u'') \<Rightarrow> (Each r i # es, u''))
           else ([Each r i], u')))"

definition forEach ::
  "Record list \<Rightarrow> ('u \<Rightarrow> Record \<Rightarrow> nat \<Rightarrow> bool \<times> 'u) \<Rightarrow> 'u
     \<Rightarrow> list_body option event list \<times> 'u" where
  "forEach page callback u =
     (case forEachFrom 0 page callback u of (es, u') \<Rightarrow> (ForEach page # es, u'))"

text \<open>
  \<^verbatim>\<open>nextPage\<close> of \<^verbatim>\<open>_forEachRecord\<close> (lines 216-229): one request per call, and a
  further call from inside the callback when the new offset is truthy. Each call
  consumes one outcome of the dispatcher, so the recursion is on the outcomes; the call
  of \<^verbatim>\<open>_listRecords\<close> is written out, and \<open>nextPage_unfold\<close> below is the equation
  with \<open>listRecords\<close> and the callback of the source.
\<close>

fun nextPage ::
  "Table \<Rightarrow> jsval \<Rightarrow> obj \<Rightarrow> ('u \<Rightarrow> Record \<Rightarrow> nat \<Rightarrow> bool \<times> 'u) \<Rightarrow> jsval \<Rightarrow> 'u
     \<Rightarrow> list_body option outcome list \<Rightarrow> (list_body option, 'u) run" where
  "nextPage that limit opts callback offs u [] =
     (Awaiting,
      [Dispatch \<lparr>method' = GET, path = TablePath that,
                 queryParams = listRecordsParameters limit offs (Some opts),
                 bodyData = Some JNull\<rparr>],
      u, [])"
| "nextPage that limit opts callback offs u (reply # rest) =
     (case
        (case reply of
           Failed err \<Rightarrow> (Finished, [CallDone (Some err) None], u, rest)
         | Succeeded None \<Rightarrow> (Threw TypeError, [], u, rest)
         | Succeeded (Some results) \<Rightarrow>
             (case newRecords that (case records results of None \<Rightarrow> [] | Some js \<Rightarrow> js) of
                Inl e \<Rightarrow> (Threw e, [], u, rest)
              | Inr page \<Rightarrow>
                  (case forEach page callback u of
                     (es, u') \<Rightarrow>
                       (if truthy_v (offset results)
                        then (case nextPage that limit opts callback (offset results) u' rest of
                                (st, es', u'', rest') \<Rightarrow> (st, es @ es', u'', rest'))
                        else (Finished, es @ [CallDone None None], u', rest)))))
      of (st, es, u', rest') \<Rightarrow>
        (st,
         Dispatch \<lparr>method' = GET, path = TablePath that,
                   queryParams = listRecordsParameters limit offs (Some opts),
                   bodyData = Some JNull\<rparr> # Received reply # es,
         u', rest'))"

text \<open>
  \<^verbatim>\<open>_forEachRecord\<close> (lines 206-231): \<open>opts = None\<close> is the two-argument call, and
  \<open>recordsPerPageForIteration\<close> is the static \<^verbatim>\<open>Table.__recordsPerPageForIteration\<close>.
\<close>

definition forEachRecord ::
  "jsval \<Rightarrow> Table \<Rightarrow> obj option \<Rightarrow> ('u \<Rightarrow> Record \<Rightarrow> nat \<Rightarrow> bool \<times> 'u) \<Rightarrow> 'u
     \<Rightarrow> list_body option outcome list \<Rightarrow> (list_body option, 'u) run" where
  "forEachRecord recordsPerPageForIteration that opts callback u =
     nextPage that (js_or recordsPerPageForIteration (Some (JNum 100)))
       (case opts of None \<Rightarrow> Map.empty | Some ob \<Rightarrow> ob) callback (Some JNull) u"

text \<open>
  \<^verbatim>\<open>_selectRecords\<close> (lines 111-143). \<open>params = NoParams\<close> is \<^verbatim>\<open>params === void 0\<close>,
  \<open>PlainObject kvs\<close> a plain object given by its own members in key order, and
  \<open>NotPlainObject\<close> any other argument; \<open>nargs\<close> is \<^verbatim>\<open>arguments.length\<close>. A failed
  \<^verbatim>\<open>assert\<close> throws an assertion error with the message. \<^verbatim>\<open>Query.validateParams\<close> is
  handed in as \<open>validateParams\<close>. The function returns the query or throws; the events
  it leaves are its console warnings.
\<close>

record validation =
  validParams :: "(string \<times> json) list"
  ignoredKeys :: "string list"
  errors :: "string list"

datatype select_params = NoParams | PlainObject "(string \<times> json) list" | NotPlainObject

record Query =
  queryTable :: Table
  queryParameters :: "(string \<times> json) list"

datatype assertion_error = AssertionError string

fun join :: "string \<Rightarrow> string list \<Rightarrow> string" where
  "join sep [] = []"
| "join sep [x] = x"
| "join sep (x # y # ys) = x @ sep @ join sep (y # ys)"

fun decimal :: "nat \<Rightarrow> string" where
  "decimal n =
     (if n < 10 then [char_of (48 + n)]
      else decimal (n div 10) @ [char_of (48 + n mod 10)])"

definition selectRecords ::
  "((string \<times> json) list \<Rightarrow> validation) \<Rightarrow> Table \<Rightarrow> select_params \<Rightarrow> nat
     \<Rightarrow> jsval event list \<times> (assertion_error + Query)" where
  "selectRecords validateParams that params nargs =
     (let params1 = (case params of NoParams \<Rightarrow> PlainObject [] | p \<Rightarrow> p);
          warned =
            (if nargs > 1
             then [Warn (''Airtable: `select` takes only one parameter, but it was given ''
                         @ decimal nargs @ '' parameters. ''
                         @ ''Use `eachPage` or `firstPage` to fetch records.'')]
             else [])
      in case params1 of
           PlainObject kvs \<Rightarrow>
             (let validationResults = validateParams kvs
              in if errors validationResults \<noteq> []
                 then (warned,
                       Inl (AssertionError
                              (''Airtable: invalid parameters for `select`:'' @ [CHR 0x0A]
                               @ join [CHR 0x0A]
                                   (map (\<lambda>error. ''  * '' @ error) (errors validationResults)))))
                 else (warned
                       @ (if ignoredKeys validationResults \<noteq> []
                          then [Warn (''Airtable: the following parameters to `select` will be ignored: ''
                                      @ join '', '' (ignoredKeys validationResults))]
                          else []),
                       Inr \<lparr>queryTable = that,
                            queryParameters = validParams validationResults\<rparr>))
         | _ \<Rightarrow>
             (warned,
              Inl (AssertionError
                     ''Airtable: the parameter for `select` should be a plain object or undefined.'')))"

text \<open>
  Modelled from the spec: \<^verbatim>\<open>Query.validateParams\<close> (query.js is not among the sources).
  Sections 4.3, 6 and 7 of the specification: listing parameters are validated before
  dispatch; unknown and malformed parameters are rejected locally, with an error
  enumerating them. The specification names only part of the recognised parameters and
  fixes no wording, so both are parameters: \<open>validators k\<close> is \<open>None\<close> for an unrecognised
  name and otherwise the check of the value (\<open>None\<close> when it passes, else the error), and
  \<open>unrecognised k\<close> is the error reported for the unrecognised name \<open>k\<close>. The specification
  describes no parameter that is ignored.
\<close>

fun validateParams_spec ::
  "(string \<Rightarrow> (json \<Rightarrow> string option) option) \<Rightarrow> (string \<Rightarrow> string) \<Rightarrow> (string \<times> json) list
     \<Rightarrow> validation" where
  "validateParams_spec validators unrecognised [] =
     \<lparr>validParams = [], ignoredKeys = [], errors = []\<rparr>"
| "validateParams_spec validators unrecognised ((k, v) # kvs) =
     (let res = validateParams_spec validators unrecognised kvs
      in case validators k of
           None \<Rightarrow> res\<lparr>errors := unrecognised k # errors res\<rparr>
         | Some check \<Rightarrow>
             (case check v of
                None \<Rightarrow> res\<lparr>validParams := (k, v) # validParams res\<rparr>
              | Some msg \<Rightarrow> res\<lparr>errors := msg # errors res\<rparr>))"


section \<open>The client configuration and the dispatcher\<close>

text \<open>
  \<^verbatim>\<open>Airtable.init\<close> (airtable.js, line 36):
  \<^verbatim>\<open>opts.noRetryIfRateLimited || Airtable.noRetryIfRateLimited || default_config.noRetryIfRateLimited\<close>,
  the default being \<^verbatim>\<open>false\<close> (line 53).
\<close>

definition noRetryIfRateLimited :: "jsval \<Rightarrow> jsval \<Rightarrow> jsval" where
  "noRetryIfRateLimited optsFlag classFlag =
     js_or (js_or optsFlag classFlag) (Some (JBool False))"

text \<open>
  What the transport gives back for one request: a status with the parsed body
  (\<open>Response st None\<close> is a body that does not parse), or a failure of the transport
  itself.
\<close>

datatype transport_reply = Response nat jsval | TransportFailure

text \<open>
  Modelled from the spec: the Action Dispatcher behind \<^verbatim>\<open>base.runAction\<close> (base.js and
  run_action.js are not among the sources). Section 4.1 of the specification: a 2xx
  response with a parseable JSON body succeeds with the parsed body; status 429 is
  retried with the identical Action Descriptor unless the caller has disabled managed
  retry, and is then surfaced as a rate-limit error; any other status, and a transport
  failure (network error, timeout, malformed JSON), is surfaced at once. The transport is
  the list of replies it will give. The
  result is the outcome handed to the caller (\<open>None\<close> while a request is unanswered) and
  the requests sent. The wait before a retry and the timeout bounding the total wait are
  real time and not part of the model.
\<close>

fun dispatch ::
  "bool \<Rightarrow> action \<Rightarrow> transport_reply list \<Rightarrow> jsval outcome option \<times> action list" where
  "dispatch noRetry a [] = (None, [a])"
| "dispatch noRetry a (TransportFailure # rest) = (Some (Failed TransportError), [a])"
| "dispatch noRetry a (Response st body # rest) =
     (if 200 \<le> st \<and> st < 300
      then (case body of
              None \<Rightarrow> (Some (Failed TransportError), [a])
            | Some b \<Rightarrow> (Some (Succeeded (Some b)), [a]))
      else if st = 429
      then (if noRetry
            then (Some (Failed (RateLimited body)), [a])
            else (case dispatch noRetry a rest of (res, sent) \<Rightarrow> (res, a # sent)))
      else (Some (Failed (RemoteError st body)), [a]))"


section \<open>Notions used by the claims\<close>

text \<open>The pages handed to \<^verbatim>\<open>forEach\<close> and the records the callback was invoked on.\<close>

fun processed :: "'b event list \<Rightarrow> Record list list" where
  "processed [] = []"
| "processed (ForEach page # es) = page # processed es"
| "processed (e # es) = processed es"

fun delivered :: "'b event list \<Rightarrow> Record list" where
  "delivered [] = []"
| "delivered (Each r i # es) = r # delivered es"
| "delivered (e # es) = delivered es"

text \<open>The record \<^verbatim>\<open>new Record(that, null, recordJson)\<close> builds from a non-null JSON value.\<close>

definition recordOf :: "Table \<Rightarrow> json \<Rightarrow> Record" where
  "recordOf that recordJson =
     setRawJson \<lparr>table = that, id' = own_prop recordJson ''id'', rawJson = None, fields' = None\<rparr>
       (Some recordJson)"

definition pageOf :: "Table \<Rightarrow> list_body \<Rightarrow> Record list" where
  "pageOf that results =
     map (recordOf that) (case records results of None \<Rightarrow> [] | Some js \<Rightarrow> js)"

definition wellFormed :: "list_body \<Rightarrow> bool" where
  "wellFormed results = (JNull \<notin> set (case records results of None \<Rightarrow> [] | Some js \<Rightarrow> js))"

definition listAction :: "Table \<Rightarrow> jsval \<Rightarrow> obj \<Rightarrow> jsval \<Rightarrow> action" where
  "listAction that limit opts offs =
     \<lparr>method' = GET, path = TablePath that,
      queryParams = listRecordsParameters limit offs (Some opts), bodyData = Some JNull\<rparr>"

text \<open>
  The cursors a traversal is handed by the server: the offset of each answered page, for
  as long as the pages are delivered and their offsets are truthy.
\<close>

fun cursors :: "Table \<Rightarrow> list_body option outcome list \<Rightarrow> jsval list" where
  "cursors that (Succeeded (Some results) # rest) =
     (if wellFormed results \<and> truthy_v (offset results)
      then offset results # cursors that rest else [])"
| "cursors that replies = []"

text \<open>
  The order of a strictly sequential traversal, as the specification's state machine:
  a request leaves only from \<open>Ready\<close> or once the page before it has been handed to the
  callback; an answer arrives only for the request in flight; the callback is invoked
  only on the next record of the page just answered; nothing follows the completion.
\<close>

datatype phase =
    Ready
  | Fetching
  | Answered "list_body option outcome"
  | Processing "Record list" nat
  | Exhausted
  | FailedWith airtable_error

fun advance :: "Table \<Rightarrow> phase \<Rightarrow> list_body option event \<Rightarrow> phase option" where
  "advance that Ready (Dispatch a) = Some Fetching"
| "advance that Fetching (Received reply) = Some (Answered reply)"
| "advance that (Answered (Succeeded (Some results))) (ForEach page) =
     (if wellFormed results \<and> page = pageOf that results then Some (Processing page 0) else None)"
| "advance that (Answered (Failed e)) (CallDone (Some e') None) =
     (if e' = e then Some (FailedWith e) else None)"
| "advance that (Processing (r # rs) i) (Each r' i') =
     (if r' = r \<and> i' = i then Some (Processing rs (Suc i)) else None)"
| "advance that (Processing rs i) (Dispatch a) = Some Fetching"
| "advance that (Processing rs i) (CallDone None None) = Some Exhausted"
| "advance that p e = None"

fun advances :: "Table \<Rightarrow> phase \<Rightarrow> list_body option event list \<Rightarrow> phase option" where
  "advances that p [] = Some p"
| "advances that p (e # es) =
     (case advance that p e of None \<Rightarrow> None | Some p' \<Rightarrow> advances that p' es)"

definition sequential :: "Table \<Rightarrow> list_body option event list \<Rightarrow> bool" where
  "sequential that es = (advances that Ready es \<noteq> None)"


text \<open>What a failed dispatch leaves of a record operation.\<close>

definition failsCleanly ::
  "(jsval outcome list \<Rightarrow> (jsval, Record) run) \<Rightarrow> Record \<Rightarrow> airtable_error \<Rightarrow> jsval outcome list
     \<Rightarrow> bool" where
  "failsCleanly run r e rest =
     (status_of (run (Failed e # rest)) = Finished
      \<and> completions (events_of (run (Failed e # rest))) = [CallDone (Some e) None]
      \<and> length (requests (events_of (run (Failed e # rest)))) = 1
      \<and> state_of (run (Failed e # rest)) = r
      \<and> pending_of (run (Failed e # rest)) = rest)"

text \<open>The request of an operation on one record.\<close>

definition recordAction :: "http_method \<Rightarrow> Record \<Rightarrow> jsval \<Rightarrow> action" where
  "recordAction m r b = \<lparr>method' = m, path = RecordPath (table r) (id' r), queryParams = Map.empty, bodyData = b\<rparr>"



section \<open>Example values\<close>

definition exampleTable :: Table where
  "exampleTable = \<lparr>tableId = None, tableName = Some (JStr ''Tasks'')\<rparr>"

definition exampleRecord :: Record where
  "exampleRecord =
     \<lparr>table = exampleTable, id' = Some (JStr ''rec1''),
      rawJson = Some (JObj [''id'' \<mapsto> JStr ''rec1'', ''fields'' \<mapsto> JObj [''a'' \<mapsto> JNum 1]]),
      fields' = Some (JObj [''a'' \<mapsto> JNum 1])\<rparr>"

definition patchedBody :: obj where
  "patchedBody =
     [''id'' \<mapsto> JStr ''rec1'', ''fields'' \<mapsto> JObj [''a'' \<mapsto> JNum 1, ''b'' \<mapsto> JNum 2]]"


definition pageOne :: list_body where
  "pageOne = \<lparr>records = Some [JObj [''id'' \<mapsto> JStr ''rec1'']], offset = Some (JStr ''itr1'')\<rparr>"

definition pageTwo :: list_body where
  "pageTwo = \<lparr>records = Some [JObj [''id'' \<mapsto> JStr ''rec2'']], offset = None\<rparr>"

definition pageEmptyOffset :: list_body where
  "pageEmptyOffset = \<lparr>records = Some [JObj [''id'' \<mapsto> JStr ''rec1'']], offset = Some (JStr [])\<rparr>"

definition keepGoing :: "unit \<Rightarrow> Record \<Rightarrow> nat \<Rightarrow> bool \<times> unit" where
  "keepGoing u r i = (True, u)"

definition exampleValidators :: "string \<Rightarrow> (json \<Rightarrow> string option) option" where
  "exampleValidators = [''view'' \<mapsto> (\<lambda>v. None), ''maxRecords'' \<mapsto> (\<lambda>v. None)]"

definition exampleUnrecognised :: "string \<Rightarrow> string" where
  "exampleUnrecognised k = ''unrecognised parameter '' @ k"


section \<open>Auxiliary facts\<close>


lemma nextPage_unfold:
  "nextPage that limit opts callback offs u replies =
     listRecords that limit offs (Some opts)
       (\<lambda>res u rest.
          case res of
            Inl err \<Rightarrow> (Finished, [CallDone (Some err) None], u, rest)
          | Inr (page, newOffset) \<Rightarrow>
              (case forEach page callback u of
                 (es, u') \<Rightarrow>
                   (if truthy_v newOffset
                    then (case nextPage that limit opts callback newOffset u' rest of
                            (st, es', u'', rest') \<Rightarrow> (st, es @ es', u'', rest'))
                    else (Finished, es @ [CallDone None None], u', rest))))
       u replies"
  by (cases replies) (simp_all add: listRecords_def split: outcome.splits option.splits sum.splits prod.splits)

lemma fetch_Nil: "fetch r [] = (Awaiting, [Dispatch (recordAction GET r (Some JNull))], r, [])"
  by (simp add: fetch_def recordAction_def)

lemma fetch_Failed:
  "fetch r (Failed e # rest) =
     (Finished, [Dispatch (recordAction GET r (Some JNull)), Received (Failed e), CallDone (Some e) None], r, rest)"
  by (simp add: fetch_def recordAction_def)

lemma fetch_Succeeded:
  "fetch r (Succeeded results # rest) =
     (Finished, [Dispatch (recordAction GET r (Some JNull)), Received (Succeeded results),
                 CallDone None (Some (setRawJson r results))], setRawJson r results, rest)"
  by (simp add: fetch_def recordAction_def Let_def)

lemma patchUpdate_Nil:
  "patchUpdate r c opts [] = (Awaiting, [Dispatch (recordAction PATCH r (writeBody c opts))], r, [])"
  by (simp add: patchUpdate_def recordAction_def)

lemma patchUpdate_Failed:
  "patchUpdate r c opts (Failed e # rest) =
     (Finished, [Dispatch (recordAction PATCH r (writeBody c opts)), Received (Failed e), CallDone (Some e) None], r, rest)"
  by (simp add: patchUpdate_def recordAction_def)

lemma patchUpdate_Succeeded:
  "patchUpdate r c opts (Succeeded results # rest) =
     (Finished, [Dispatch (recordAction PATCH r (writeBody c opts)), Received (Succeeded results),
                 CallDone None (Some (setRawJson r results))], setRawJson r results, rest)"
  by (simp add: patchUpdate_def recordAction_def Let_def)

lemma putUpdate_Nil:
  "putUpdate r c opts [] = (Awaiting, [Dispatch (recordAction PUT r (writeBody c opts))], r, [])"
  by (simp add: putUpdate_def recordAction_def)

lemma putUpdate_Failed:
  "putUpdate r c opts (Failed e # rest) =
     (Finished, [Dispatch (recordAction PUT r (writeBody c opts)), Received (Failed e), CallDone (Some e) None], r, rest)"
  by (simp add: putUpdate_def recordAction_def)

lemma putUpdate_Succeeded:
  "putUpdate r c opts (Succeeded results # rest) =
     (Finished, [Dispatch (recordAction PUT r (writeBody c opts)), Received (Succeeded results),
                 CallDone None (Some (setRawJson r results))], setRawJson r results, rest)"
  by (simp add: putUpdate_def recordAction_def Let_def)

lemma destroy_Nil: "destroy r [] = (Awaiting, [Dispatch (recordAction DELETE r (Some JNull))], r, [])"
  by (simp add: destroy_def recordAction_def)

lemma destroy_Failed:
  "destroy r (Failed e # rest) =
     (Finished, [Dispatch (recordAction DELETE r (Some JNull)), Received (Failed e), CallDone (Some e) None], r, rest)"
  by (simp add: destroy_def recordAction_def)

lemma destroy_Succeeded:
  "destroy r (Succeeded results # rest) =
     (Finished, [Dispatch (recordAction DELETE r (Some JNull)), Received (Succeeded results),
                 CallDone None (Some r)], r, rest)"
  by (simp add: destroy_def recordAction_def)

lemmas record_op_simps =
  fetch_Nil fetch_Failed fetch_Succeeded patchUpdate_Nil patchUpdate_Failed patchUpdate_Succeeded
  putUpdate_Nil putUpdate_Failed putUpdate_Succeeded destroy_Nil destroy_Failed destroy_Succeeded

lemmas run_proj = status_of_def events_of_def state_of_def pending_of_def

lemma setRawJson_fields:
  "fields' (setRawJson r j) = js_or (js_and_member j ''fields'') (Some (JObj Map.empty))"
  by (simp add: setRawJson_def Let_def)

lemma setRawJson_id: "id' (setRawJson r j) = id' r"
  by (simp add: setRawJson_def Let_def)


lemma truthy_fields_after_set: "truthy_v (fields' (setRawJson r j))"
  by (simp add: setRawJson_fields js_or_def truthy_v_def)

lemma setRawJson_mapping:
  "js_and_member j ''fields'' = Some (JObj F) \<Longrightarrow> fields' (setRawJson r j) = Some (JObj F)"
  by (simp add: setRawJson_fields js_or_def truthy_v_def)


lemma requests_createRecord:
  "requests (events_of (createRecord that recordData opts replies)) =
     [\<lparr>method' = POST, path = TablePath that, queryParams = Map.empty,
       bodyData = writeBody recordData opts\<rparr>]"
  by (cases replies)
     (simp_all add: createRecord_def events_of_def split: outcome.splits sum.splits)

lemma requests_patchUpdate:
  "requests (events_of (patchUpdate r c opts replies)) = [recordAction PATCH r (writeBody c opts)]"
proof (cases replies)
  case Nil then show ?thesis by (simp add: record_op_simps events_of_def)
next
  case (Cons reply rest) then show ?thesis
    by (cases reply) (simp_all add: record_op_simps events_of_def)
qed

lemma requests_putUpdate:
  "requests (events_of (putUpdate r c opts replies)) = [recordAction PUT r (writeBody c opts)]"
proof (cases replies)
  case Nil then show ?thesis by (simp add: record_op_simps events_of_def)
next
  case (Cons reply rest) then show ?thesis
    by (cases reply) (simp_all add: record_op_simps events_of_def)
qed











lemma requests_append: "requests (xs @ ys) = requests xs @ requests ys"
  by (induction xs rule: requests.induct) simp_all

lemma completions_append: "completions (xs @ ys) = completions xs @ completions ys"
  by (induction xs rule: completions.induct) simp_all

lemma processed_append: "processed (xs @ ys) = processed xs @ processed ys"
  by (induction xs rule: processed.induct) simp_all

lemma delivered_append: "delivered (xs @ ys) = delivered xs @ delivered ys"
  by (induction xs rule: delivered.induct) simp_all

lemma init_null_id:
  "init that (Some JNull) (Some j) = (if j = JNull then Inl TypeError else Inr (recordOf that j))"
  by (cases j) (simp_all add: init_def truthy_v_def member_def recordOf_def)

lemma newRecords_eq:
  "newRecords that js = (if JNull \<in> set js then Inl TypeError else Inr (map (recordOf that) js))"
  by (induction js) (auto simp: init_null_id)

lemma newRecords_wellFormed:
  "newRecords that (case records results of None \<Rightarrow> [] | Some js \<Rightarrow> js) =
     (if wellFormed results then Inr (pageOf that results) else Inl TypeError)"
  by (simp add: newRecords_eq wellFormed_def pageOf_def)

lemma forEachFrom_quiet:
  "requests (fst (forEachFrom i rs cb u)) = []
 \<and> completions (fst (forEachFrom i rs cb u)) = []
 \<and> processed (fst (forEachFrom i rs cb u)) = []"
  by (induction rs arbitrary: i u) (simp_all add: case_prod_beta)

lemma forEach_quiet:
  "requests (fst (forEach page cb u)) = []"
  "completions (fst (forEach page cb u)) = []"
  "processed (fst (forEach page cb u)) = [page]"
  using forEachFrom_quiet [of 0 page cb u]
  by (simp_all add: forEach_def case_prod_beta)

lemma forEachFrom_delivered:
  "(\<And>u r i. fst (cb u r i)) \<Longrightarrow> delivered (fst (forEachFrom i rs cb u)) = rs"
proof (induction rs arbitrary: i u)
  case Nil
  then show ?case by simp
next
  case (Cons r rs)
  from Cons.prems [of u r i] Cons.IH [of "Suc i" "snd (cb u r i)"] Cons.prems show ?case
    by (simp add: case_prod_beta)
qed

lemma forEach_delivered:
  "(\<And>u r i. fst (cb u r i)) \<Longrightarrow> delivered (fst (forEach page cb u)) = page"
  using forEachFrom_delivered [of cb 0 page u]
  by (simp add: forEach_def case_prod_beta)

lemma nextPage_Nil:
  "nextPage that limit opts cb offs u [] = (Awaiting, [Dispatch (listAction that limit opts offs)], u, [])"
  by (simp add: listAction_def)

lemma nextPage_Failed:
  "nextPage that limit opts cb offs u (Failed e # rest) =
     (Finished, [Dispatch (listAction that limit opts offs), Received (Failed e), CallDone (Some e) None], u, rest)"
  by (simp add: listAction_def)

lemma nextPage_nobody:
  "nextPage that limit opts cb offs u (Succeeded None # rest) =
     (Threw TypeError, [Dispatch (listAction that limit opts offs), Received (Succeeded None)], u, rest)"
  by (simp add: listAction_def)

lemma nextPage_malformed:
  "\<not> wellFormed results \<Longrightarrow>
   nextPage that limit opts cb offs u (Succeeded (Some results) # rest) =
     (Threw TypeError,
      [Dispatch (listAction that limit opts offs), Received (Succeeded (Some results))], u, rest)"
  by (simp add: listAction_def newRecords_wellFormed)

lemma nextPage_last:
  "wellFormed results \<Longrightarrow> \<not> truthy_v (offset results) \<Longrightarrow>
   nextPage that limit opts cb offs u (Succeeded (Some results) # rest) =
     (Finished,
      Dispatch (listAction that limit opts offs) # Received (Succeeded (Some results))
        # fst (forEach (pageOf that results) cb u) @ [CallDone None None],
      snd (forEach (pageOf that results) cb u), rest)"
  by (simp add: listAction_def newRecords_wellFormed case_prod_beta)

lemma nextPage_more:
  "wellFormed results \<Longrightarrow> truthy_v (offset results) \<Longrightarrow>
   nextPage that limit opts cb offs u (Succeeded (Some results) # rest) =
     (status_of (nextPage that limit opts cb (offset results) (snd (forEach (pageOf that results) cb u)) rest),
      Dispatch (listAction that limit opts offs) # Received (Succeeded (Some results))
        # fst (forEach (pageOf that results) cb u)
        @ events_of (nextPage that limit opts cb (offset results) (snd (forEach (pageOf that results) cb u)) rest),
      state_of (nextPage that limit opts cb (offset results) (snd (forEach (pageOf that results) cb u)) rest),
      pending_of (nextPage that limit opts cb (offset results) (snd (forEach (pageOf that results) cb u)) rest))"
  by (simp add: listAction_def newRecords_wellFormed run_proj case_prod_beta)

lemmas nextPage_cases =
  nextPage_Nil nextPage_Failed nextPage_nobody nextPage_malformed nextPage_last nextPage_more

declare nextPage.simps [simp del]

lemma nextPage_pages:
  assumes "pages \<noteq> []"
    and "\<forall>b \<in> set pages. wellFormed b"
    and "\<forall>b \<in> set (butlast pages). truthy_v (offset b)"
    and "\<not> truthy_v (offset (last pages))"
  shows "status_of (nextPage that limit opts cb offs u (map (\<lambda>b. Succeeded (Some b)) pages @ rest)) = Finished
       \<and> pending_of (nextPage that limit opts cb offs u (map (\<lambda>b. Succeeded (Some b)) pages @ rest)) = rest
       \<and> processed (events_of (nextPage that limit opts cb offs u (map (\<lambda>b. Succeeded (Some b)) pages @ rest)))
           = map (pageOf that) pages
       \<and> completions (events_of (nextPage that limit opts cb offs u (map (\<lambda>b. Succeeded (Some b)) pages @ rest)))
           = [CallDone None None]
       \<and> last (events_of (nextPage that limit opts cb offs u (map (\<lambda>b. Succeeded (Some b)) pages @ rest)))
           = CallDone None None
       \<and> requests (events_of (nextPage that limit opts cb offs u (map (\<lambda>b. Succeeded (Some b)) pages @ rest)))
           = map (listAction that limit opts) (offs # map offset (butlast pages))
       \<and> ((\<forall>u r i. fst (cb u r i)) \<longrightarrow>
            delivered (events_of (nextPage that limit opts cb offs u (map (\<lambda>b. Succeeded (Some b)) pages @ rest)))
              = concat (map (pageOf that) pages))"
  using assms
proof (induction pages arbitrary: offs u)
  case Nil
  then show ?case by simp
next
  case (Cons b pages)
  show ?case
  proof (cases "pages = []")
    case True
    with Cons.prems show ?thesis
      by (simp add: nextPage_last run_proj processed_append completions_append requests_append
            delivered_append forEach_quiet forEach_delivered)
  next
    case False
    with Cons.prems have wf: "wellFormed b" and tr: "truthy_v (offset b)" by auto
    from False Cons.prems
    have IH: "status_of (nextPage that limit opts cb offs' u' (map (\<lambda>b. Succeeded (Some b)) pages @ rest)) = Finished
       \<and> pending_of (nextPage that limit opts cb offs' u' (map (\<lambda>b. Succeeded (Some b)) pages @ rest)) = rest
       \<and> processed (events_of (nextPage that limit opts cb offs' u' (map (\<lambda>b. Succeeded (Some b)) pages @ rest)))
           = map (pageOf that) pages
       \<and> completions (events_of (nextPage that limit opts cb offs' u' (map (\<lambda>b. Succeeded (Some b)) pages @ rest)))
           = [CallDone None None]
       \<and> last (events_of (nextPage that limit opts cb offs' u' (map (\<lambda>b. Succeeded (Some b)) pages @ rest)))
           = CallDone None None
       \<and> requests (events_of (nextPage that limit opts cb offs' u' (map (\<lambda>b. Succeeded (Some b)) pages @ rest)))
           = map (listAction that limit opts) (offs' # map offset (butlast pages))
       \<and> ((\<forall>u r i. fst (cb u r i)) \<longrightarrow>
            delivered (events_of (nextPage that limit opts cb offs' u' (map (\<lambda>b. Succeeded (Some b)) pages @ rest)))
              = concat (map (pageOf that) pages))" for offs' u'
      by (intro Cons.IH) auto
    have ne: "events_of (nextPage that limit opts cb offs' u' (map (\<lambda>b. Succeeded (Some b)) pages @ rest)) \<noteq> []" for offs' u'
      using IH [of offs' u'] by auto
    show ?thesis
      using IH [of "offset b" "snd (forEach (pageOf that b) cb u)"] False ne
      by (simp add: nextPage_more [OF wf tr] run_proj processed_append completions_append
            requests_append delivered_append forEach_quiet forEach_delivered)
  qed
qed

lemma nextPage_resume_failed:
  "status_of (nextPage that limit opts cb offs u pre) = Awaiting \<Longrightarrow>
   nextPage that limit opts cb offs u (pre @ Failed e # rest) =
     (Finished,
      events_of (nextPage that limit opts cb offs u pre) @ [Received (Failed e), CallDone (Some e) None],
      state_of (nextPage that limit opts cb offs u pre), rest)"
proof (induction pre arbitrary: offs u)
  case Nil
  show ?case by (simp add: nextPage_cases run_proj)
next
  case (Cons reply pre)
  show ?case
  proof (cases reply)
    case (Failed e')
    with Cons.prems show ?thesis by (simp add: nextPage_cases run_proj)
  next
    case (Succeeded body)
    show ?thesis
    proof (cases body)
      case None
      with Cons.prems Succeeded show ?thesis by (simp add: nextPage_cases run_proj)
    next
      case (Some results)
      show ?thesis
      proof (cases "wellFormed results")
        case False
        with Cons.prems Succeeded Some show ?thesis by (simp add: nextPage_cases run_proj)
      next
        case wf: True
        show ?thesis
        proof (cases "truthy_v (offset results)")
          case False
          with Cons.prems Succeeded Some wf show ?thesis by (simp add: nextPage_cases run_proj)
        next
          case True
          from Cons.prems Succeeded Some
          have "status_of (nextPage that limit opts cb (offset results)
                  (snd (forEach (pageOf that results) cb u)) pre) = Awaiting"
            by (simp add: nextPage_more [OF wf True] run_proj)
          from Cons.IH [OF this] Succeeded Some show ?thesis
            by (simp add: nextPage_more [OF wf True] run_proj)
        qed
      qed
    qed
  qed
qed

lemma nextPage_awaiting:
  "status_of (nextPage that limit opts cb offs u replies) = Awaiting \<Longrightarrow>
     completions (events_of (nextPage that limit opts cb offs u replies)) = []
   \<and> pending_of (nextPage that limit opts cb offs u replies) = []"
proof (induction replies arbitrary: offs u)
  case Nil
  show ?case by (simp add: nextPage_cases run_proj)
next
  case (Cons reply replies)
  show ?case
  proof (cases reply)
    case (Failed e')
    with Cons.prems show ?thesis by (simp add: nextPage_cases run_proj)
  next
    case (Succeeded body)
    show ?thesis
    proof (cases body)
      case None
      with Cons.prems Succeeded show ?thesis by (simp add: nextPage_cases run_proj)
    next
      case (Some results)
      show ?thesis
      proof (cases "wellFormed results")
        case False
        with Cons.prems Succeeded Some show ?thesis by (simp add: nextPage_cases run_proj)
      next
        case wf: True
        show ?thesis
        proof (cases "truthy_v (offset results)")
          case False
          with Cons.prems Succeeded Some wf show ?thesis by (simp add: nextPage_cases run_proj)
        next
          case True
          from Cons.prems Succeeded Some
          have "status_of (nextPage that limit opts cb (offset results)
                  (snd (forEach (pageOf that results) cb u)) replies) = Awaiting"
            by (simp add: nextPage_more [OF wf True] run_proj)
          from Cons.IH [OF this] Succeeded Some show ?thesis
            by (simp add: nextPage_more [OF wf True] run_proj completions_append forEach_quiet)
        qed
      qed
    qed
  qed
qed

lemma requests_nextPage:
  "requests (events_of (nextPage that limit opts cb offs u replies)) =
     map (listAction that limit opts) (offs # cursors that replies)"
proof (induction replies arbitrary: offs u)
  case Nil
  show ?case by (simp add: nextPage_cases run_proj)
next
  case (Cons reply replies)
  show ?case
  proof (cases reply)
    case (Failed e')
    then show ?thesis by (simp add: nextPage_cases run_proj)
  next
    case (Succeeded body)
    show ?thesis
    proof (cases body)
      case None
      with Succeeded show ?thesis by (simp add: nextPage_cases run_proj)
    next
      case (Some results)
      show ?thesis
      proof (cases "wellFormed results")
        case False
        with Succeeded Some show ?thesis by (simp add: nextPage_cases run_proj)
      next
        case wf: True
        show ?thesis
        proof (cases "truthy_v (offset results)")
          case False
          with Succeeded Some wf show ?thesis
            by (simp add: nextPage_cases run_proj requests_append forEach_quiet)
        next
          case True
          from Cons.IH [of "offset results" "snd (forEach (pageOf that results) cb u)"] Succeeded Some wf True
          show ?thesis
            by (simp add: nextPage_more [OF wf True] run_proj requests_append forEach_quiet)
        qed
      qed
    qed
  qed
qed

lemma advances_append:
  "advances that p (xs @ ys) =
     (case advances that p xs of None \<Rightarrow> None | Some p' \<Rightarrow> advances that p' ys)"
  by (induction xs arbitrary: p) (simp_all split: option.splits)

lemma advances_forEachFrom:
  "\<exists>rs' i'. advances that (Processing rs i) (fst (forEachFrom i rs cb u)) = Some (Processing rs' i')"
  by (induction rs arbitrary: i u) (simp_all add: case_prod_beta)

lemma advances_forEach:
  "wellFormed results \<Longrightarrow>
   \<exists>rs' i'. advances that (Answered (Succeeded (Some results))) (fst (forEach (pageOf that results) cb u))
              = Some (Processing rs' i')"
  using advances_forEachFrom [of that "pageOf that results" 0 cb u]
  by (simp add: forEach_def case_prod_beta)

lemma advances_nextPage:
  "p = Ready \<or> (\<exists>rs i. p = Processing rs i) \<Longrightarrow>
   advances that p (events_of (nextPage that limit opts cb offs u replies)) \<noteq> None"
proof (induction replies arbitrary: p offs u)
  case Nil
  then show ?case by (auto simp: nextPage_cases run_proj)
next
  case (Cons reply replies)
  show ?case
  proof (cases reply)
    case (Failed e')
    with Cons.prems show ?thesis by (auto simp: nextPage_cases run_proj)
  next
    case (Succeeded body)
    show ?thesis
    proof (cases body)
      case None
      with Cons.prems Succeeded show ?thesis by (auto simp: nextPage_cases run_proj)
    next
      case (Some results)
      show ?thesis
      proof (cases "wellFormed results")
        case False
        with Cons.prems Succeeded Some show ?thesis by (auto simp: nextPage_cases run_proj)
      next
        case wf: True
        obtain rs' i' where fe:
          "advances that (Answered (Succeeded (Some results))) (fst (forEach (pageOf that results) cb u))
             = Some (Processing rs' i')"
          using advances_forEach [OF wf, of that cb u] by blast
        show ?thesis
        proof (cases "truthy_v (offset results)")
          case False
          with Cons.prems Succeeded Some wf fe show ?thesis
            by (auto simp: nextPage_cases run_proj advances_append)
        next
          case True
          have "advances that (Processing rs' i')
                  (events_of (nextPage that limit opts cb (offset results)
                     (snd (forEach (pageOf that results) cb u)) replies)) \<noteq> None"
            by (rule Cons.IH) blast
          with Cons.prems Succeeded Some fe show ?thesis
            by (auto simp: nextPage_more [OF wf True] run_proj advances_append)
        qed
      qed
    qed
  qed
qed



section \<open>Claims about a record\<close>

text \<open>
  Claim C2. When the dispatch of \<^verbatim>\<open>fetch\<close>, \<^verbatim>\<open>patchUpdate\<close> or \<^verbatim>\<open>putUpdate\<close> succeeds
  with a body whose \<^verbatim>\<open>fields\<close> member is the mapping \<open>F\<close>, the record's \<^verbatim>\<open>fields\<close> is
  exactly \<open>F\<close> afterwards, whatever it was before and whatever changes were sent.
\<close>

theorem fields_replaced_wholesale:
  assumes "results = Some (JObj body)" and "body ''fields'' = Some (JObj F)"
  shows "fields' (state_of (fetch r (Succeeded results # rest))) = Some (JObj F)
       \<and> fields' (state_of (patchUpdate r changes opts (Succeeded results # rest))) = Some (JObj F)
       \<and> fields' (state_of (putUpdate r changes opts (Succeeded results # rest))) = Some (JObj F)"
proof -
  have "js_and_member results ''fields'' = Some (JObj F)"
    using assms by (simp add: js_and_member_def truthy_v_def)
  then have "fields' (setRawJson r results) = Some (JObj F)"
    by (rule setRawJson_mapping)
  then show ?thesis
    by (simp add: record_op_simps state_of_def)
qed

text \<open>
  \<^verbatim>\<open>patchUpdate({b: 2})\<close> on a record whose snapshot is \<^verbatim>\<open>{a: 1}\<close>, answered with
  \<^verbatim>\<open>{id, fields: {a: 1, b: 2}}\<close>.
\<close>

theorem fields_replaced_wholesale_witness:
  "fields' (state_of (patchUpdate exampleRecord (Some (JObj [''b'' \<mapsto> JNum 2])) None
                        [Succeeded (Some (JObj patchedBody))]))
     = Some (JObj [''a'' \<mapsto> JNum 1, ''b'' \<mapsto> JNum 2])"
  using fields_replaced_wholesale
          [of "Some (JObj patchedBody)" patchedBody "[''a'' \<mapsto> JNum 1, ''b'' \<mapsto> JNum 2]"
              exampleRecord "[]" "Some (JObj [''b'' \<mapsto> JNum 2])" None]
  by (simp add: patchedBody_def)

text \<open>
  Claim C6. When the dispatch of \<^verbatim>\<open>fetch\<close>, \<^verbatim>\<open>patchUpdate\<close>, \<^verbatim>\<open>putUpdate\<close> or
  \<^verbatim>\<open>destroy\<close> fails with \<open>e\<close>, the completion callback is invoked once, with \<open>e\<close> itself,
  and the record is what it was before the call. While the dispatcher has not answered
  the record is untouched too, and \<^verbatim>\<open>destroy\<close> never writes it: a record operation
  changes the record only on a successful answer.
\<close>

theorem failure_leaves_record_untouched:
  "failsCleanly (fetch r) r e rest
 \<and> failsCleanly (patchUpdate r changes opts) r e rest
 \<and> failsCleanly (putUpdate r changes opts) r e rest
 \<and> failsCleanly (destroy r) r e rest
 \<and> state_of (fetch r []) = r
 \<and> state_of (patchUpdate r changes opts []) = r
 \<and> state_of (putUpdate r changes opts []) = r
 \<and> state_of (destroy r []) = r
 \<and> state_of (destroy r (Succeeded results # rest)) = r"
  by (simp add: failsCleanly_def record_op_simps run_proj)

text \<open>
  Claim C8. No operation of a record changes its \<^verbatim>\<open>id\<close>: not \<^verbatim>\<open>fetch\<close>,
  \<^verbatim>\<open>patchUpdate\<close>, \<^verbatim>\<open>putUpdate\<close>, \<^verbatim>\<open>destroy\<close> or \<^verbatim>\<open>save\<close>, whatever the dispatcher
  answers, nor \<^verbatim>\<open>setRawJson\<close>, nor a \<^verbatim>\<open>set\<close> that returns.
\<close>

theorem id_never_changes:
  "id' (state_of (fetch r replies)) = id' r
 \<and> id' (state_of (patchUpdate r changes opts replies)) = id' r
 \<and> id' (state_of (putUpdate r changes opts replies)) = id' r
 \<and> id' (state_of (destroy r replies)) = id' r
 \<and> id' (state_of (save r replies)) = id' r
 \<and> id' (setRawJson r j) = id' r
 \<and> (case set' r columnName columnValue of Inl e \<Rightarrow> True | Inr r' \<Rightarrow> id' r' = id' r)"
proof -
  have "id' (state_of (run replies)) = id' r"
    if "run \<in> {fetch r, patchUpdate r changes opts, putUpdate r changes opts, destroy r, save r}"
    for run
  proof (cases replies)
    case Nil
    then show ?thesis using that by (auto simp: record_op_simps run_proj save_def)
  next
    case (Cons reply rest)
    then show ?thesis using that
      by (cases reply) (auto simp: record_op_simps run_proj save_def setRawJson_id)
  qed
  moreover have "case set' r columnName columnValue of Inl e \<Rightarrow> True | Inr r' \<Rightarrow> id' r' = id' r"
    by (simp add: set'_def Let_def split: option.splits json.splits)
  ultimately show ?thesis
    by (simp add: setRawJson_id)
qed

text \<open>
  Claim C9. \<^verbatim>\<open>patchUpdate\<close>, \<^verbatim>\<open>putUpdate\<close> and \<^verbatim>\<open>create\<close> send one request, whose body is
  the object \<^verbatim>\<open>{fields: changes}\<close> overwritten member by member with the options: every
  member of the options is in the body as it was given, so a \<^verbatim>\<open>fields\<close> member of the
  options replaces the changes, and without one the body's \<^verbatim>\<open>fields\<close> is the changes.
\<close>

theorem write_body_is_fields_and_options:
  "map bodyData (requests (events_of (patchUpdate r changes opts replies))) = [writeBody changes opts]
 \<and> map bodyData (requests (events_of (putUpdate r changes opts replies))) = [writeBody changes opts]
 \<and> map bodyData (requests (events_of (createRecord that changes opts replies'))) = [writeBody changes opts]
 \<and> writeBody changes opts =
      Some (JObj (Map.empty(''fields'' := changes) ++ (case opts of None \<Rightarrow> Map.empty | Some ob \<Rightarrow> ob)))
 \<and> (opts = Some ob \<and> ob k = Some v \<longrightarrow> member (writeBody changes opts) k = Inr (Some v))
 \<and> (opts = Some ob \<and> ob ''fields'' = Some w \<longrightarrow> member (writeBody changes opts) ''fields'' = Inr (Some w))
 \<and> (opts = None \<or> (opts = Some ob \<and> ob ''fields'' = None)
      \<longrightarrow> member (writeBody changes opts) ''fields'' = Inr changes)"
  by (auto simp: requests_patchUpdate requests_putUpdate requests_createRecord recordAction_def
        writeBody_def assign_def member_def map_add_def)

text \<open>
  \<^verbatim>\<open>patchUpdate({b: 2}, {typecast: true, fields: {x: 9}})\<close>: the body's \<^verbatim>\<open>fields\<close> is
  \<^verbatim>\<open>{x: 9}\<close>.
\<close>

theorem write_body_is_fields_and_options_witness:
  "map bodyData (requests (events_of
      (patchUpdate exampleRecord (Some (JObj [''b'' \<mapsto> JNum 2]))
         (Some [''typecast'' \<mapsto> JBool True, ''fields'' \<mapsto> JObj [''x'' \<mapsto> JNum 9]]) [])))
     = [writeBody (Some (JObj [''b'' \<mapsto> JNum 2]))
          (Some [''typecast'' \<mapsto> JBool True, ''fields'' \<mapsto> JObj [''x'' \<mapsto> JNum 9]])]
 \<and> member (writeBody (Some (JObj [''b'' \<mapsto> JNum 2]))
             (Some [''typecast'' \<mapsto> JBool True, ''fields'' \<mapsto> JObj [''x'' \<mapsto> JNum 9]])) ''fields''
     = Inr (Some (JObj [''x'' \<mapsto> JNum 9]))
 \<and> member (writeBody (Some (JObj [''b'' \<mapsto> JNum 2]))
             (Some [''typecast'' \<mapsto> JBool True, ''fields'' \<mapsto> JObj [''x'' \<mapsto> JNum 9]])) ''typecast''
     = Inr (Some (JBool True))
 \<and> member (writeBody (Some (JObj [''b'' \<mapsto> JNum 2])) None) ''fields''
     = Inr (Some (JObj [''b'' \<mapsto> JNum 2]))"
  using write_body_is_fields_and_options
          [where r = exampleRecord and changes = "Some (JObj [''b'' \<mapsto> JNum 2])"
             and opts = "Some [''typecast'' \<mapsto> JBool True, ''fields'' \<mapsto> JObj [''x'' \<mapsto> JNum 9]]"
             and ob = "[''typecast'' \<mapsto> JBool True, ''fields'' \<mapsto> JObj [''x'' \<mapsto> JNum 9]]"
             and k = "''typecast''" and v = "JBool True" and w = "JObj [''x'' \<mapsto> JNum 9]"
             and replies = "[]" and that = exampleTable and replies' = "[]"]
        write_body_is_fields_and_options
          [where r = exampleRecord and changes = "Some (JObj [''b'' \<mapsto> JNum 2])"
             and opts = None and replies = "[]" and that = exampleTable and replies' = "[]"]
  by (simp add: member_def)





section \<open>Claims about the traversal of a listing\<close>

text \<open>
  Claim C1, as stated, fails: a response whose offset is the empty string carries a
  non-null offset, yet the traversal fetches no further page and completes, leaving the
  dispatcher's next outcome unused.
\<close>

theorem falsy_offset_ends_traversal_counterexample:
  "offset pageEmptyOffset \<noteq> None \<and> offset pageEmptyOffset \<noteq> Some JNull
 \<and> status_of (forEachRecord None exampleTable None keepGoing ()
                 [Succeeded (Some pageEmptyOffset), Succeeded (Some pageTwo)]) = Finished
 \<and> length (requests (events_of (forEachRecord None exampleTable None keepGoing ()
                 [Succeeded (Some pageEmptyOffset), Succeeded (Some pageTwo)]))) = 1
 \<and> pending_of (forEachRecord None exampleTable None keepGoing ()
                 [Succeeded (Some pageEmptyOffset), Succeeded (Some pageTwo)])
     = [Succeeded (Some pageTwo)]"
proof -
  have wf: "wellFormed pageEmptyOffset"
    by (simp add: wellFormed_def pageEmptyOffset_def)
  have off: "\<not> truthy_v (offset pageEmptyOffset)"
    by (simp add: truthy_v_def pageEmptyOffset_def)
  show ?thesis
    by (simp add: forEachRecord_def nextPage_last [OF wf off] run_proj requests_append forEach_quiet)
       (simp add: pageEmptyOffset_def)
qed

text \<open>
  Claim C1, amended to truthy offsets. Let the dispatcher answer with the listing bodies
  \<open>pages\<close>, each a list of non-null record JSON, all but the last with a truthy offset and
  the last with a falsy one (none, \<^verbatim>\<open>null\<close>, the empty string). Then
  \<^verbatim>\<open>forEach(page, callback)\<close> is entered once per page, in order, with the records built
  from that page's JSON in the order of the response; the callback, when it never
  returns \<^verbatim>\<open>false\<close>, is invoked on exactly these records in order; one request is sent
  per page, the first with a null offset and each further one built from the offset of
  the page before; and after the last page the completion callback is invoked, once and
  last, with no error, and no further outcome of the dispatcher is used.
\<close>

theorem traversal_visits_every_page_then_completes:
  assumes "pages \<noteq> []"
    and "\<forall>b \<in> set pages. wellFormed b"
    and "\<forall>b \<in> set (butlast pages). truthy_v (offset b)"
    and "\<not> truthy_v (offset (last pages))"
    and "run = forEachRecord perPage that opts callback u (map (\<lambda>b. Succeeded (Some b)) pages @ rest)"
  shows "status_of run = Finished
       \<and> pending_of run = rest
       \<and> processed (events_of run) = map (pageOf that) pages
       \<and> completions (events_of run) = [CallDone None None]
       \<and> last (events_of run) = CallDone None None
       \<and> requests (events_of run)
           = map (listAction that (js_or perPage (Some (JNum 100)))
                    (case opts of None \<Rightarrow> Map.empty | Some ob \<Rightarrow> ob))
               (Some JNull # map offset (butlast pages))
       \<and> ((\<forall>u r i. fst (callback u r i)) \<longrightarrow>
            delivered (events_of run) = concat (map (pageOf that) pages))"
  unfolding assms(5) forEachRecord_def
  by (rule nextPage_pages [OF assms(1-4)])

text \<open>Two pages, the second without an offset: two pages processed, then completion.\<close>

theorem traversal_visits_every_page_then_completes_witness:
  "status_of (forEachRecord None exampleTable None keepGoing ()
                [Succeeded (Some pageOne), Succeeded (Some pageTwo)]) = Finished
 \<and> processed (events_of (forEachRecord None exampleTable None keepGoing ()
                [Succeeded (Some pageOne), Succeeded (Some pageTwo)]))
     = [pageOf exampleTable pageOne, pageOf exampleTable pageTwo]
 \<and> completions (events_of (forEachRecord None exampleTable None keepGoing ()
                [Succeeded (Some pageOne), Succeeded (Some pageTwo)]))
     = [CallDone None None]
 \<and> length (requests (events_of (forEachRecord None exampleTable None keepGoing ()
                [Succeeded (Some pageOne), Succeeded (Some pageTwo)]))) = 2"
  using traversal_visits_every_page_then_completes
          [where pages = "[pageOne, pageTwo]" and that = exampleTable and opts = None
             and callback = keepGoing and u = "()" and perPage = None and rest = "[]"
             and run = "forEachRecord None exampleTable None keepGoing ()
                          [Succeeded (Some pageOne), Succeeded (Some pageTwo)]"]
  by (simp add: wellFormed_def truthy_v_def pageOne_def pageTwo_def)

text \<open>
  The pages have to be lists of record JSON: a \<^verbatim>\<open>null\<close> among the records of a response
  makes the \<^verbatim>\<open>Record\<close> constructor throw, and the completion callback is never invoked.
\<close>

lemma null_record_throws:
  "status_of (forEachRecord None exampleTable None keepGoing ()
                [Succeeded (Some \<lparr>records = Some [JNull], offset = None\<rparr>)]) = Threw TypeError
 \<and> completions (events_of (forEachRecord None exampleTable None keepGoing ()
                [Succeeded (Some \<lparr>records = Some [JNull], offset = None\<rparr>)])) = []"
  by (simp add: forEachRecord_def nextPage_malformed wellFormed_def run_proj)

text \<open>
  Claim C4. Let a traversal have sent the request for a page and be waiting for its
  answer. When that answer is a failure \<open>e\<close>, the completion callback is invoked with
  \<open>e\<close>, and this is the only invocation of it; the traversal has finished and uses no
  further outcome of the dispatcher; it sends no request beyond those already sent; and
  everything done before (the pages processed, the records the callback was invoked on)
  stands as it was.
\<close>

theorem failed_page_is_reported_once:
  assumes "status_of (forEachRecord perPage that opts callback u pre) = Awaiting"
  shows "status_of (forEachRecord perPage that opts callback u (pre @ Failed e # rest)) = Finished
       \<and> pending_of (forEachRecord perPage that opts callback u (pre @ Failed e # rest)) = rest
       \<and> events_of (forEachRecord perPage that opts callback u (pre @ Failed e # rest))
           = events_of (forEachRecord perPage that opts callback u pre)
               @ [Received (Failed e), CallDone (Some e) None]
       \<and> state_of (forEachRecord perPage that opts callback u (pre @ Failed e # rest))
           = state_of (forEachRecord perPage that opts callback u pre)
       \<and> completions (events_of (forEachRecord perPage that opts callback u (pre @ Failed e # rest)))
           = [CallDone (Some e) None]
       \<and> requests (events_of (forEachRecord perPage that opts callback u (pre @ Failed e # rest)))
           = requests (events_of (forEachRecord perPage that opts callback u pre))
       \<and> processed (events_of (forEachRecord perPage that opts callback u (pre @ Failed e # rest)))
           = processed (events_of (forEachRecord perPage that opts callback u pre))
       \<and> delivered (events_of (forEachRecord perPage that opts callback u (pre @ Failed e # rest)))
           = delivered (events_of (forEachRecord perPage that opts callback u pre))"
proof -
  have a: "status_of (nextPage that (js_or perPage (Some (JNum 100)))
             (case opts of None \<Rightarrow> Map.empty | Some ob \<Rightarrow> ob) callback (Some JNull) u pre) = Awaiting"
    using assms by (simp add: forEachRecord_def)
  show ?thesis
    using nextPage_resume_failed [OF a, of e rest] nextPage_awaiting [OF a]
    by (simp add: forEachRecord_def run_proj requests_append completions_append
          processed_append delivered_append)
qed

text \<open>The first page arrives, the fetch of the second fails.\<close>

theorem failed_page_is_reported_once_witness:
  "status_of (forEachRecord None exampleTable None keepGoing () [Succeeded (Some pageOne)]) = Awaiting
 \<and> completions (events_of (forEachRecord None exampleTable None keepGoing ()
                  [Succeeded (Some pageOne), Failed TransportError, Succeeded (Some pageTwo)]))
     = [CallDone (Some TransportError) None]
 \<and> pending_of (forEachRecord None exampleTable None keepGoing ()
                  [Succeeded (Some pageOne), Failed TransportError, Succeeded (Some pageTwo)])
     = [Succeeded (Some pageTwo)]
 \<and> processed (events_of (forEachRecord None exampleTable None keepGoing ()
                  [Succeeded (Some pageOne), Failed TransportError, Succeeded (Some pageTwo)]))
     = [pageOf exampleTable pageOne]"
proof -
  have wf: "wellFormed pageOne"
    by (simp add: wellFormed_def pageOne_def)
  have off: "truthy_v (offset pageOne)"
    by (simp add: truthy_v_def pageOne_def)
  have a: "status_of (forEachRecord None exampleTable None keepGoing () [Succeeded (Some pageOne)]) = Awaiting"
    by (simp add: forEachRecord_def nextPage_more [OF wf off] nextPage_Nil run_proj)
  have p: "processed (events_of (forEachRecord None exampleTable None keepGoing () [Succeeded (Some pageOne)]))
             = [pageOf exampleTable pageOne]"
    by (simp add: forEachRecord_def nextPage_more [OF wf off] nextPage_Nil run_proj
          processed_append forEach_quiet)
  show ?thesis
    using a p failed_page_is_reported_once [OF a, of TransportError "[Succeeded (Some pageTwo)]"]
    by (elim conjE) (simp only: append.simps simp_thms)
qed

text \<open>
  Claim C5, as stated, fails: when the options carry an \<^verbatim>\<open>offset\<close> member of their
  own, it overrides the cursor in every request, so a traversal of two pages that
  completes without error has sent the same request twice.
\<close>

theorem offset_option_repeats_request_counterexample:
  "offset pageOne = Some (JStr ''itr1'')
 \<and> completions (events_of (forEachRecord None exampleTable (Some [''offset'' \<mapsto> JStr ''itr0'']) keepGoing ()
                  [Succeeded (Some pageOne), Succeeded (Some pageTwo)])) = [CallDone None None]
 \<and> map (\<lambda>a. queryParams a ''offset'')
       (requests (events_of (forEachRecord None exampleTable (Some [''offset'' \<mapsto> JStr ''itr0'']) keepGoing ()
                  [Succeeded (Some pageOne), Succeeded (Some pageTwo)])))
     = [Some (JStr ''itr0''), Some (JStr ''itr0'')]
 \<and> \<not> distinct (requests (events_of (forEachRecord None exampleTable (Some [''offset'' \<mapsto> JStr ''itr0'']) keepGoing ()
                  [Succeeded (Some pageOne), Succeeded (Some pageTwo)])))"
proof -
  have wf1: "wellFormed pageOne" and wf2: "wellFormed pageTwo"
    by (simp_all add: wellFormed_def pageOne_def pageTwo_def)
  have off1: "truthy_v (offset pageOne)" and off2: "\<not> truthy_v (offset pageTwo)"
    by (simp_all add: truthy_v_def pageOne_def pageTwo_def)
  show ?thesis
    by (simp add: forEachRecord_def nextPage_more [OF wf1 off1] nextPage_last [OF wf2 off2] run_proj
          requests_append completions_append forEach_quiet listAction_def
          listRecordsParameters_def assign_def)
       (simp add: pageOne_def)
qed

text \<open>
  Claim C5, amended. Every traversal is strictly sequential: its events follow the state
  machine \<open>advance\<close>, in which a request leaves only at the start or after the page
  answered before it has been handed to the callback and the callback has returned from
  its last invocation on it. The requests sent are the one for a null offset and then,
  in order, one built from the offset of each page answered so far; so, when the options
  carry no \<^verbatim>\<open>offset\<close> member of their own, request \<open>k + 1\<close> carries exactly the offset
  returned with page \<open>k\<close>, and each returned offset is used for one fetch.
\<close>

theorem pages_fetched_in_sequence:
  "sequential that (events_of (forEachRecord perPage that opts callback u replies))
 \<and> requests (events_of (forEachRecord perPage that opts callback u replies))
     = map (listAction that (js_or perPage (Some (JNum 100)))
              (case opts of None \<Rightarrow> Map.empty | Some ob \<Rightarrow> ob))
         (Some JNull # cursors that replies)
 \<and> ((case opts of None \<Rightarrow> None | Some ob \<Rightarrow> ob ''offset'') = None \<longrightarrow>
      map (\<lambda>a. queryParams a ''offset'')
        (requests (events_of (forEachRecord perPage that opts callback u replies)))
        = Some JNull # cursors that replies)"
proof -
  have "advances that Ready (events_of (forEachRecord perPage that opts callback u replies)) \<noteq> None"
    unfolding forEachRecord_def by (rule advances_nextPage) simp
  then have s: "sequential that (events_of (forEachRecord perPage that opts callback u replies))"
    by (simp add: sequential_def)
  have r: "requests (events_of (forEachRecord perPage that opts callback u replies))
     = map (listAction that (js_or perPage (Some (JNum 100)))
              (case opts of None \<Rightarrow> Map.empty | Some ob \<Rightarrow> ob))
         (Some JNull # cursors that replies)"
    unfolding forEachRecord_def by (rule requests_nextPage)
  have q: "queryParams (listAction that limit ob offs) ''offset'' = offs" if "ob ''offset'' = None"
    for limit ob offs
    using that by (simp add: listAction_def listRecordsParameters_def assign_def map_add_def)
  show ?thesis
    using s r by (auto simp: q comp_def split: option.splits)
qed

text \<open>Two pages and no options: the second request carries the first page's offset.\<close>

theorem pages_fetched_in_sequence_witness:
  "sequential exampleTable (events_of (forEachRecord None exampleTable None keepGoing ()
      [Succeeded (Some pageOne), Succeeded (Some pageTwo)]))
 \<and> map (\<lambda>a. queryParams a ''offset'')
       (requests (events_of (forEachRecord None exampleTable None keepGoing ()
          [Succeeded (Some pageOne), Succeeded (Some pageTwo)])))
     = [Some JNull, Some (JStr ''itr1'')]"
  using pages_fetched_in_sequence
          [of exampleTable None None keepGoing "()" "[Succeeded (Some pageOne), Succeeded (Some pageTwo)]"]
  by (simp add: wellFormed_def truthy_v_def pageOne_def pageTwo_def listAction_def
        listRecordsParameters_def assign_def)


section \<open>Claims about validation and dispatch\<close>

lemma requests_warned:
  "requests (if c then [Warn m] else []) = []"
  by simp

lemma requests_selectRecords:
  "requests (fst (selectRecords validateParams that params nargs)) = []"
  by (simp add: selectRecords_def Let_def requests_append split: select_params.splits)

lemma validateParams_spec_unrecognised:
  "(k, v) \<in> set kvs \<Longrightarrow> validators k = None \<Longrightarrow>
   unrecognised k \<in> set (errors (validateParams_spec validators unrecognised kvs))"
  by (induction kvs) (auto simp: Let_def split: option.splits)

lemma validateParams_spec_not_ignored:
  "ignoredKeys (validateParams_spec validators unrecognised kvs) = []"
  by (induction kvs) (auto simp: Let_def split: option.splits)

lemma selectRecords_errors:
  "errors (validateParams kvs) \<noteq> [] \<Longrightarrow>
   snd (selectRecords validateParams that (PlainObject kvs) nargs)
     = Inl (AssertionError
             (''Airtable: invalid parameters for `select`:'' @ [CHR 0x0A]
              @ join [CHR 0x0A] (map (\<lambda>error. ''  * '' @ error) (errors (validateParams kvs)))))"
  by (simp add: selectRecords_def Let_def del: append.simps)

text \<open>
  Claim C7. With the validator of the specification, \<^verbatim>\<open>select\<close> on a plain object that
  has a member with an unrecognised name throws an assertion error whose message lists
  the validator's errors, that of the unrecognised name among them; it returns no query,
  and it hands no request to the dispatcher (which \<^verbatim>\<open>select\<close> never does, whatever the
  validator).
\<close>

theorem select_rejects_unrecognised_parameter:
  assumes "(k, v) \<in> set kvs" and "validators k = None"
  shows "snd (selectRecords (validateParams_spec validators unrecognised) that (PlainObject kvs) nargs)
           = Inl (AssertionError
                   (''Airtable: invalid parameters for `select`:'' @ [CHR 0x0A]
                    @ join [CHR 0x0A]
                        (map (\<lambda>error. ''  * '' @ error)
                           (errors (validateParams_spec validators unrecognised kvs)))))
       \<and> unrecognised k \<in> set (errors (validateParams_spec validators unrecognised kvs))
       \<and> requests (fst (selectRecords (validateParams_spec validators unrecognised) that
                           (PlainObject kvs) nargs)) = []
       \<and> requests (fst (selectRecords validateParams that params nargs')) = []"
proof -
  have u: "unrecognised k \<in> set (errors (validateParams_spec validators unrecognised kvs))"
    using assms by (rule validateParams_spec_unrecognised)
  then have "errors (validateParams_spec validators unrecognised kvs) \<noteq> []"
    by auto
  then have "snd (selectRecords (validateParams_spec validators unrecognised) that (PlainObject kvs) nargs)
           = Inl (AssertionError
                   (''Airtable: invalid parameters for `select`:'' @ [CHR 0x0A]
                    @ join [CHR 0x0A]
                        (map (\<lambda>error. ''  * '' @ error)
                           (errors (validateParams_spec validators unrecognised kvs)))))"
    by (rule selectRecords_errors)
  then show ?thesis
    using u by (simp only: requests_selectRecords simp_thms)
qed

text \<open>\<^verbatim>\<open>select({foo: 1})\<close>.\<close>

theorem select_rejects_unrecognised_parameter_witness:
  "snd (selectRecords (validateParams_spec exampleValidators exampleUnrecognised) exampleTable
          (PlainObject [(''foo'', JNum 1)]) 1)
     = Inl (AssertionError
             (''Airtable: invalid parameters for `select`:'' @ [CHR 0x0A]
              @ ''  * unrecognised parameter foo''))
 \<and> requests (fst (selectRecords (validateParams_spec exampleValidators exampleUnrecognised)
                     exampleTable (PlainObject [(''foo'', JNum 1)]) 1)) = []"
  using select_rejects_unrecognised_parameter
          [where k = "''foo''" and v = "JNum 1" and kvs = "[(''foo'', JNum 1)]"
             and validators = exampleValidators and unrecognised = exampleUnrecognised
             and that = exampleTable and nargs = 1]
  by (simp add: exampleValidators_def exampleUnrecognised_def)

text \<open>
  Claim C3. With managed retry enabled, a dispatch that is answered 429 and then, for
  the same Action Descriptor sent again, 200 with a JSON body hands the caller that body
  and no error, after exactly two sends of the same descriptor. With managed retry
  disabled, the first 429 is handed to the caller as a rate-limit error after one send.
  Managed retry is enabled by default and disabled by \<^verbatim>\<open>noRetryIfRateLimited: true\<close>.
\<close>

theorem rate_limit_retry:
  "dispatch False a (Response 429 payload # Response 200 (Some body) # rest)
     = (Some (Succeeded (Some body)), [a, a])
 \<and> dispatch True a (Response 429 payload # rest) = (Some (Failed (RateLimited payload)), [a])
 \<and> truthy_v (noRetryIfRateLimited None None) = False
 \<and> truthy_v (noRetryIfRateLimited (Some (JBool True)) classFlag) = True
 \<and> dispatch (truthy_v (noRetryIfRateLimited None None)) a
      (Response 429 payload # Response 200 (Some body) # rest)
     = (Some (Succeeded (Some body)), [a, a])
 \<and> dispatch (truthy_v (noRetryIfRateLimited (Some (JBool True)) classFlag)) a
      (Response 429 payload # rest)
     = (Some (Failed (RateLimited payload)), [a])"
  by (simp add: noRetryIfRateLimited_def js_or_def truthy_v_def)

end
